theory Spec2Isabelle
  imports Main "HOL-Library.Word"
begin

unbundle bit_operations_syntax

section \<open>Connection endpoint: transport/session.cpp\<close>

text \<open>
  The identifier is an unsigned 64-bit integer drawn from the process-wide
  \<^verbatim>\<open>AtomicUInt64 sessionIdCounter(0)\<close>. The transport layer is held by a raw, nullable
  pointer; it is modelled by the address of the transport layer, \<open>None\<close> being
  \<^verbatim>\<open>nullptr\<close>. \<^verbatim>\<open>HostAndPort\<close> is declared outside the files at hand; the only thing the
  registry reads from it is the optional resolved socket address.
\<close>

type_synonym SessionId = "64 word"
type_synonym TransportLayer = nat
type_synonym SockAddr = string

record HostAndPort =
  host :: string
  port :: int
  sockAddr :: "SockAddr option"

text \<open>
  The members \<^verbatim>\<open>_id\<close>, \<^verbatim>\<open>_remote\<close>, \<^verbatim>\<open>_local\<close> and \<^verbatim>\<open>_tl\<close> of \<^verbatim>\<open>Session\<close>.
\<close>

record Session =
  s_id :: SessionId
  s_remote :: HostAndPort
  s_local :: HostAndPort
  s_tl :: "TransportLayer option"

text \<open>
  \<^verbatim>\<open>AtomicUInt64::addAndFetch(n)\<close>: one atomic read-modify-write that returns the new
  value. Increments of different threads are linearised, so a run of the process is a
  sequence of such steps on the counter; unsigned addition wraps modulo \<open>2^64\<close>.
\<close>

definition addAndFetch :: "64 word \<Rightarrow> 64 word \<Rightarrow> 64 word" where
  "addAndFetch counter n = counter + n"

text \<open>
  \<^verbatim>\<open>Session::Session(HostAndPort remote, HostAndPort local, TransportLayer* tl)\<close>.
  The function takes the value of \<^verbatim>\<open>sessionIdCounter\<close> and returns the new session
  together with the counter after the increment.
\<close>

definition Session_ctor ::
  "SessionId \<Rightarrow> HostAndPort \<Rightarrow> HostAndPort \<Rightarrow> TransportLayer option \<Rightarrow> Session \<times> SessionId" where
  "Session_ctor sessionIdCounter remote local tlp =
     (let c = addAndFetch sessionIdCounter 1
      in (\<lparr>s_id = c, s_remote = remote, s_local = local, s_tl = tlp\<rparr>, c))"

text \<open>
  The calls that reach the transport layer are recorded in a log: \<open>TL_end tl i\<close> is the call
  \<^verbatim>\<open>tl->end(session)\<close> made for the session with identifier \<open>i\<close>.
\<close>

datatype tl_call = TL_end TransportLayer SessionId

text \<open>
  \<^verbatim>\<open>Session::~Session()\<close>: notifies the transport layer if and only if \<^verbatim>\<open>_tl\<close> is not
  null. The \<^verbatim>\<open>invariant(_tl)\<close> inside the guarded branch cannot fail there.
\<close>

definition Session_dtor :: "Session \<Rightarrow> tl_call list \<Rightarrow> tl_call list" where
  "Session_dtor this log =
     (case s_tl this of
        None \<Rightarrow> log
      | Some tlp \<Rightarrow> log @ [TL_end tlp (s_id this)])"

text \<open>
  \<^verbatim>\<open>Session::Session(Session&& other)\<close>. The result is the pair of the constructed
  session and the moved-from \<open>other\<close>. What \<^verbatim>\<open>std::move\<close> leaves in a moved-from
  \<^verbatim>\<open>HostAndPort\<close> is not fixed by the language; it is the parameter \<open>husk\<close>.
\<close>

definition Session_move_ctor ::
  "(HostAndPort \<Rightarrow> HostAndPort) \<Rightarrow> Session \<Rightarrow> Session \<times> Session" where
  "Session_move_ctor husk other =
     (let this = \<lparr>s_id = s_id other,
                  s_remote = s_remote other,
                  s_local = s_local other,
                  s_tl = s_tl other\<rparr>;
          other1 = other\<lparr>s_remote := husk (s_remote other), s_local := husk (s_local other)\<rparr>;
          other2 = other1\<lparr>s_tl := None\<rparr>
      in (this, other2))"

text \<open>
  \<^verbatim>\<open>Session& Session::operator=(Session&& other)\<close>, statement by statement:
  \<^verbatim>\<open>_id = other._id; _remote = std::move(other._remote); _local = std::move(other._local);
  _tl = other._tl; _tl = nullptr;\<close>. Both assignments to \<^verbatim>\<open>_tl\<close> have the destination on
  the left. The result is the pair of the assigned-to session and the moved-from \<open>other\<close>.
  The two sessions are two objects; the assignment of a session to itself is
  \<open>Session_move_assign_self\<close> below.
\<close>

definition Session_move_assign ::
  "(HostAndPort \<Rightarrow> HostAndPort) \<Rightarrow> Session \<Rightarrow> Session \<Rightarrow> Session \<times> Session" where
  "Session_move_assign husk this other =
     (let this1 = this\<lparr>s_id := s_id other\<rparr>;
          this2 = this1\<lparr>s_remote := s_remote other\<rparr>;
          this3 = this2\<lparr>s_local := s_local other\<rparr>;
          other1 = other\<lparr>s_remote := husk (s_remote other), s_local := husk (s_local other)\<rparr>;
          this4 = this3\<lparr>s_tl := s_tl other1\<rparr>;
          this5 = this4\<lparr>s_tl := None\<rparr>
      in (this5, other1))"

text \<open>
  The same statements when \<^verbatim>\<open>other\<close> is \<^verbatim>\<open>*this\<close>: there is one object, the identifier is
  assigned to itself, the addresses are moved onto themselves, and \<^verbatim>\<open>_tl\<close> is assigned to
  itself and then cleared.
\<close>

definition Session_move_assign_self :: "(HostAndPort \<Rightarrow> HostAndPort) \<Rightarrow> Session \<Rightarrow> Session" where
  "Session_move_assign_self husk this =
     (let this1 = this\<lparr>s_id := s_id this\<rparr>;
          this2 = this1\<lparr>s_remote := husk (s_remote this1)\<rparr>;
          this3 = this2\<lparr>s_local := husk (s_local this2)\<rparr>;
          this4 = this3\<lparr>s_tl := s_tl this3\<rparr>;
          this5 = this4\<lparr>s_tl := None\<rparr>
      in this5)"

text \<open>Constructing sessions one after the other, threading the counter.\<close>

fun Session_ctor_all ::
  "SessionId \<Rightarrow> (HostAndPort \<times> HostAndPort \<times> TransportLayer option) list \<Rightarrow> Session list" where
  "Session_ctor_all counter [] = []"
| "Session_ctor_all counter ((remote, local, tlp) # args) =
     (let (s, counter') = Session_ctor counter remote local tlp
      in s # Session_ctor_all counter' args)"

section \<open>Connection registry: transport/service_entry_point_impl.cpp\<close>

subsection \<open>The objects the registry works on\<close>

text \<open>
  \<^verbatim>\<open>startSession\<close> receives a \<^verbatim>\<open>transport::SessionHandle\<close>, a shared pointer to a session.
  Besides the four members above, the registry reads the session's tag mask
  (\<^verbatim>\<open>getTags()\<close>, an unsigned 32-bit mask) and attaches a \<^verbatim>\<open>RestrictionEnvironment\<close> built
  from the two resolved socket addresses; both live in declarations outside the files at
  hand and are kept as two further fields.
\<close>

type_synonym TagMask = "32 word"

record SessionHandle = Session +
  getTags :: TagMask
  restrictionEnvironment :: "(SockAddr \<times> SockAddr) option"

text \<open>
  Modelled from the spec: the lifecycle states of the per-connection driver
  (\<^verbatim>\<open>ServiceStateMachine::State\<close> is declared outside the files at hand). The spec gives
  \<open>Created\<close>, then \<open>Running\<close> (repeatable), then \<open>Ended\<close>, the unique terminal state.
\<close>

datatype State = Created | Running | Ended

text \<open>
  A driver is shared (\<^verbatim>\<open>std::shared_ptr<ServiceStateMachine>\<close>) between the registry,
  the snapshot of \<^verbatim>\<open>endAllSessions\<close> and the worker; a reference to it is its address.
  The cleanup hook installed by \<^verbatim>\<open>startSession\<close> is the closure \<^verbatim>\<open>[this, ssmIt]\<close>; what it
  captures is the list iterator \<^verbatim>\<open>ssmIt\<close>. Every list node holds a freshly created driver,
  so a node is identified by the address of its driver.
\<close>

type_synonym ssm_ref = nat

record ServiceStateMachine =
  session :: SessionHandle
  state :: State
  cleanupHook :: "ssm_ref option"
  sync_mode :: bool

text \<open>
  The state the registry's member functions read and write: the list \<^verbatim>\<open>_sessions\<close>
  (new entries go to the front), the atomic counter \<^verbatim>\<open>_nWorkers\<close> (a \<^verbatim>\<open>size_t\<close>, taken
  as 64 bits wide), and the drivers allocated so far, which occupy the addresses below
  \<open>allocated\<close>.
\<close>

record world =
  sessions :: "ssm_ref list"
  nWorkers :: "64 word"
  ssms :: "ssm_ref \<Rightarrow> ServiceStateMachine"
  allocated :: nat

record ServiceContext =
  getServiceExecutor :: "nat option"

record ProcessInfo =
  getNumAvailableCores :: "nat option"
  getNumCores :: nat

text \<open>
  What a member function does besides changing the state is recorded as a list of events,
  in program order: taking and releasing \<^verbatim>\<open>_sessionsMutex\<close>, the calls into a driver, the
  log line, the changes of the two lists and of the worker counter.
\<close>

datatype event =
    Lock
  | Unlock
  | Session_call ssm_ref
  | Log_skip SessionId
  | ConnsToEnd_emplace_back ssm_ref
  | Terminate_call ssm_ref
  | RestrictionEnvironment_set
  | Create_call ssm_ref
  | Sessions_emplace ssm_ref
  | SetCleanupHook_call ssm_ref
  | ScheduleNext_call ssm_ref
  | LaunchServiceWorkerThread ssm_ref
  | NWorkers_addAndFetch
  | NWorkers_subtractAndFetch
  | State_call ssm_ref
  | RunNext_call ssm_ref
  | Yield

text \<open>\<^verbatim>\<open>invariant(...)\<close> and \<^verbatim>\<open>dassert(...)\<close> abort the process when their condition is false.\<close>

datatype error = InvariantFailure | DassertFailure

subsection \<open>The driver's operations used by the registry\<close>

text \<open>
  Modelled from the spec: \<^verbatim>\<open>ServiceStateMachine::create(context, endpoint, synchronous)\<close>
  is not in the files at hand. The spec: it ``builds a driver bound to the given endpoint;
  does not start execution''. The new driver takes the next free address, is in state
  \<open>Created\<close> and has no cleanup hook yet.
\<close>

definition ServiceStateMachine_create :: "SessionHandle \<Rightarrow> bool \<Rightarrow> world \<Rightarrow> ssm_ref \<times> world" where
  "ServiceStateMachine_create sess sync w =
     (let ssm = allocated w
      in (ssm, w\<lparr>ssms := (ssms w)(ssm := \<lparr>session = sess, state = Created,
                                            cleanupHook = None, sync_mode = sync\<rparr>),
                allocated := Suc (allocated w)\<rparr>))"

text \<open>
  Modelled from the spec: \<^verbatim>\<open>setCleanupHook(callback)\<close> is not in the files at hand. The
  spec: it ``installs a one-shot callback invoked exactly once, synchronously, at the
  moment the driver's state becomes Ended''.
\<close>

definition setCleanupHook :: "ssm_ref \<Rightarrow> ssm_ref \<Rightarrow> world \<Rightarrow> world" where
  "setCleanupHook ssm ssmIt w = w\<lparr>ssms := (ssms w)(ssm := (ssms w ssm)\<lparr>cleanupHook := Some ssmIt\<rparr>)\<rparr>"

text \<open>
  The body of the hook is in \<^verbatim>\<open>startSession\<close>: under the lock,
  \<^verbatim>\<open>_sessions.erase(ssmIt)\<close> removes the one node the iterator points to.
\<close>

definition cleanupHook_body :: "ssm_ref \<Rightarrow> world \<Rightarrow> world" where
  "cleanupHook_body ssmIt w = w\<lparr>sessions := remove1 ssmIt (sessions w)\<rparr>"

text \<open>
  Modelled from the spec: the driver's transition to its terminal state is not in the
  files at hand. The spec: \<open>Ended\<close> ``is terminal and irreversible'', and the hook is
  ``invoked exactly once, synchronously, at the moment the driver's state becomes Ended'';
  on a driver that has already ended nothing happens.
\<close>

definition ssm_end :: "ssm_ref \<Rightarrow> world \<Rightarrow> world" where
  "ssm_end ssm w =
     (if state (ssms w ssm) = Ended then w
      else let w1 = w\<lparr>ssms := (ssms w)(ssm := (ssms w ssm)\<lparr>state := Ended\<rparr>)\<rparr>
           in case cleanupHook (ssms w ssm) of
                None \<Rightarrow> w1
              | Some ssmIt \<Rightarrow> cleanupHook_body ssmIt w1)"

text \<open>
  Modelled from the spec: one unit of work of a driver that does not end it
  (\<open>Created\<close> or \<open>Running\<close> to \<open>Running\<close>); part of \<^verbatim>\<open>runNext()\<close>, which is not in the files
  at hand.
\<close>

definition ssm_continue :: "ssm_ref \<Rightarrow> world \<Rightarrow> world" where
  "ssm_continue ssm w =
     (if state (ssms w ssm) = Ended then w
      else w\<lparr>ssms := (ssms w)(ssm := (ssms w ssm)\<lparr>state := Running\<rparr>)\<rparr>)"

text \<open>
  Modelled from the spec: \<^verbatim>\<open>terminate()\<close> is not in the files at hand. The spec: ``an
  external terminate request may force a transition to Ended from any non-terminal state;
  if the driver has already reached Ended, terminate is a no-op''. This definition is the
  forcing variant; \<^verbatim>\<open>endAllSessions\<close> below takes the operation as a parameter.
\<close>

definition ssm_terminate :: "ssm_ref \<Rightarrow> world \<Rightarrow> world" where
  "ssm_terminate ssm w = ssm_end ssm w"

subsection \<open>startSession\<close>

text \<open>
  \<^verbatim>\<open>void ServiceEntryPointImpl::startSession(transport::SessionHandle session)\<close>, up to
  the point where it returns. The two ways of running the driver are events:
  \<^verbatim>\<open>scheduleNext()\<close> hands the driver to the executor and returns, and
  \<^verbatim>\<open>launchServiceWorkerThread\<close> starts a thread whose body is \<open>serviceWorker\<close> below.
  The result is \<open>Inl\<close> when the process is aborted.
\<close>

definition startSession ::
  "ServiceContext \<Rightarrow> SessionHandle \<Rightarrow> world \<Rightarrow> error + (event list \<times> world)" where
  "startSession svcCtx sess w =
     (let remoteAddr = sockAddr (s_remote sess);
          localAddr = sockAddr (s_local sess)
      in if \<not> (remoteAddr \<noteq> None \<and> localAddr \<noteq> None) then Inl InvariantFailure
         else
           let sess1 = sess\<lparr>restrictionEnvironment := Some (the remoteAddr, the localAddr)\<rparr>;
               sync = (getServiceExecutor svcCtx = None);
               (ssm, w1) = ServiceStateMachine_create sess1 sync w;
               w2 = w1\<lparr>sessions := ssm # sessions w1\<rparr>;
               ssmIt = ssm;
               w3 = setCleanupHook ssm ssmIt w2;
               setup = [RestrictionEnvironment_set, Create_call ssm,
                        Lock, Sessions_emplace ssm, Unlock,
                        SetCleanupHook_call ssm]
           in if \<not> sync then
                (if \<not> (getServiceExecutor svcCtx \<noteq> None) then Inl DassertFailure
                 else Inr (setup @ [ScheduleNext_call ssm], w3))
              else Inr (setup @ [LaunchServiceWorkerThread ssm], w3))"

subsection \<open>The worker thread\<close>

text \<open>
  The lambda \<^verbatim>\<open>numCores\<close>: the available cores if the platform reports them, the number
  of cores otherwise, each converted with \<^verbatim>\<open>static_cast<unsigned>\<close> (32 bits).
\<close>

definition static_cast_unsigned :: "nat \<Rightarrow> nat" where
  "static_cast_unsigned n = n mod 2 ^ 32"

definition numCores :: "ProcessInfo \<Rightarrow> nat" where
  "numCores p =
     (case getNumAvailableCores p of
        Some availCores \<Rightarrow> static_cast_unsigned availCores
      | None \<Rightarrow> static_cast_unsigned (getNumCores p))"



subsection \<open>endAllSessions\<close>

text \<open>
  The first loop, run while \<^verbatim>\<open>lk\<close> holds the mutex: for every entry of \<^verbatim>\<open>_sessions\<close>, in
  order, \<^verbatim>\<open>if (ssm->session()->getTags() & tags)\<close> log the skip (which reads
  \<^verbatim>\<open>ssm->session()->id()\<close>), else append a copy of the shared pointer to \<^verbatim>\<open>connsToEnd\<close>.
\<close>

fun collect_connsToEnd ::
  "(ssm_ref \<Rightarrow> ServiceStateMachine) \<Rightarrow> TagMask \<Rightarrow> ssm_ref list \<Rightarrow> ssm_ref list \<Rightarrow> event list \<times> ssm_ref list" where
  "collect_connsToEnd heap tags [] connsToEnd = ([], connsToEnd)"
| "collect_connsToEnd heap tags (ssm # rest) connsToEnd =
     (if getTags (session (heap ssm)) AND tags \<noteq> 0 then
        (let (es, cs) = collect_connsToEnd heap tags rest connsToEnd
         in (Session_call ssm # Session_call ssm # Log_skip (s_id (session (heap ssm))) # es, cs))
      else
        (let (es, cs) = collect_connsToEnd heap tags rest (connsToEnd @ [ssm])
         in (Session_call ssm # ConnsToEnd_emplace_back ssm # es, cs)))"

text \<open>
  The second loop, after the block that holds the lock: \<^verbatim>\<open>ssm->terminate()\<close> for every
  entry of \<^verbatim>\<open>connsToEnd\<close>, in order. \<^verbatim>\<open>terminate()\<close> is a parameter that may change
  anything in the state.
\<close>

fun terminate_connsToEnd ::
  "(ssm_ref \<Rightarrow> world \<Rightarrow> world) \<Rightarrow> ssm_ref list \<Rightarrow> world \<Rightarrow> event list \<times> world" where
  "terminate_connsToEnd terminate [] w = ([], w)"
| "terminate_connsToEnd terminate (ssm # rest) w =
     (let w1 = terminate ssm w;
          (es, w2) = terminate_connsToEnd terminate rest w1
      in (Terminate_call ssm # es, w2))"

definition endAllSessions ::
  "(ssm_ref \<Rightarrow> world \<Rightarrow> world) \<Rightarrow> TagMask \<Rightarrow> world \<Rightarrow> event list \<times> world" where
  "endAllSessions terminate tags w =
     (let (es1, connsToEnd) = collect_connsToEnd (ssms w) tags (sessions w) [];
          (es2, w1) = terminate_connsToEnd terminate connsToEnd w
      in ([Lock] @ es1 @ [Unlock] @ es2, w1))"

subsection \<open>getNumberOfConnections\<close>


subsection \<open>Reading event lists\<close>

text \<open>The events that happen while the mutex is held, given whether it is held at the start.\<close>

fun under_lock :: "bool \<Rightarrow> event list \<Rightarrow> event list" where
  "under_lock held [] = []"
| "under_lock held (Lock # es) = under_lock True es"
| "under_lock held (Unlock # es) = under_lock False es"
| "under_lock held (e # es) = (if held then e # under_lock held es else under_lock held es)"

text \<open>The events that happen while the mutex is not held.\<close>

fun outside_lock :: "bool \<Rightarrow> event list \<Rightarrow> event list" where
  "outside_lock held [] = []"
| "outside_lock held (Lock # es) = outside_lock True es"
| "outside_lock held (Unlock # es) = outside_lock False es"
| "outside_lock held (e # es) = (if held then outside_lock held es else e # outside_lock held es)"

text \<open>
  The calls into a driver: the calls of the operations of a driver the registry relies
  on, which are \<^verbatim>\<open>create\<close>, \<^verbatim>\<open>setCleanupHook\<close>, \<^verbatim>\<open>scheduleNext\<close>, \<^verbatim>\<open>runNext\<close>, \<^verbatim>\<open>terminate\<close>
  and \<^verbatim>\<open>state\<close>. The accessor \<^verbatim>\<open>session()\<close> only hands out the session pointer the driver
  holds; it runs no step of the driver and cannot block, and is not counted.
\<close>

fun is_driver_call :: "event \<Rightarrow> bool" where
  "is_driver_call (Create_call ssm) = True"
| "is_driver_call (SetCleanupHook_call ssm) = True"
| "is_driver_call (ScheduleNext_call ssm) = True"
| "is_driver_call (RunNext_call ssm) = True"
| "is_driver_call (Terminate_call ssm) = True"
| "is_driver_call (State_call ssm) = True"
| "is_driver_call e = False"

text \<open>The events that start or continue the execution of a driver.\<close>

fun starts_execution :: "event \<Rightarrow> bool" where
  "starts_execution (ScheduleNext_call ssm) = True"
| "starts_execution (LaunchServiceWorkerThread ssm) = True"
| "starts_execution (RunNext_call ssm) = True"
| "starts_execution e = False"

subsection \<open>Executions of the registry\<close>

text \<open>
  \<^verbatim>\<open>startSession\<close> does not change the state in one piece. It first creates the driver,
  holding no lock; then it takes \<^verbatim>\<open>_sessionsMutex\<close>, inserts the driver and releases the
  mutex; only then it installs the cleanup hook; and last it starts the execution. Other
  threads may run between these phases. The first phase, up to the return of
  \<^verbatim>\<open>ServiceStateMachine::create\<close>:
\<close>

definition startSession_create ::
  "ServiceContext \<Rightarrow> SessionHandle \<Rightarrow> world \<Rightarrow> error + (ssm_ref \<times> world)" where
  "startSession_create svcCtx sess w =
     (let remoteAddr = sockAddr (s_remote sess);
          localAddr = sockAddr (s_local sess)
      in if \<not> (remoteAddr \<noteq> None \<and> localAddr \<noteq> None) then Inl InvariantFailure
         else
           let sess1 = sess\<lparr>restrictionEnvironment := Some (the remoteAddr, the localAddr)\<rparr>;
               sync = (getServiceExecutor svcCtx = None)
           in Inr (ServiceStateMachine_create sess1 sync w))"

text \<open>The second phase, the block that holds the lock: \<^verbatim>\<open>_sessions.emplace(_sessions.begin(), ssm)\<close>.\<close>

definition startSession_emplace :: "ssm_ref \<Rightarrow> world \<Rightarrow> world" where
  "startSession_emplace ssm w = w\<lparr>sessions := ssm # sessions w\<rparr>"

text \<open>
  The third phase is \<open>setCleanupHook ssm ssm\<close>. An execution of the registry is a sequence
  of steps of its threads, in the order in which they take effect:
  \<^item> the three phases of a call of \<^verbatim>\<open>startSession\<close>; a thread inserts the driver it has
    created, once, and installs the hook on the driver it has inserted, once;
  \<^item> a unit of work of a driver that does not end it, and the transition of a driver to
    \<open>Ended\<close> in the course of its own execution; the execution of a driver is started by
    \<^verbatim>\<open>startSession\<close> after the hook is installed, so these steps need the hook;
  \<^item> a call of \<^verbatim>\<open>terminate()\<close> on a driver, as \<^verbatim>\<open>endAllSessions\<close> makes for every entry of its
    snapshot (the forcing \<open>ssm_terminate\<close>).
  A step that is not enabled does not happen. A failed invariant ends the execution.
\<close>

datatype step =
    Create_step ServiceContext SessionHandle
  | Emplace_step ssm_ref
  | SetCleanupHook_step ssm_ref
  | Continue_step ssm_ref
  | End_step ssm_ref
  | Terminate_step ssm_ref

fun apply_step :: "step \<Rightarrow> world \<Rightarrow> error + world" where
  "apply_step (Create_step svcCtx sess) w =
     (case startSession_create svcCtx sess w of Inl e \<Rightarrow> Inl e | Inr (ssm, w1) \<Rightarrow> Inr w1)"
| "apply_step (Emplace_step ssm) w =
     (if ssm < allocated w \<and> cleanupHook (ssms w ssm) = None \<and> ssm \<notin> set (sessions w)
      then Inr (startSession_emplace ssm w) else Inr w)"
| "apply_step (SetCleanupHook_step ssm) w =
     (if ssm < allocated w \<and> cleanupHook (ssms w ssm) = None \<and> ssm \<in> set (sessions w)
      then Inr (setCleanupHook ssm ssm w) else Inr w)"
| "apply_step (Continue_step ssm) w =
     (if ssm < allocated w \<and> cleanupHook (ssms w ssm) \<noteq> None
      then Inr (ssm_continue ssm w) else Inr w)"
| "apply_step (End_step ssm) w =
     (if ssm < allocated w \<and> cleanupHook (ssms w ssm) \<noteq> None
      then Inr (ssm_end ssm w) else Inr w)"
| "apply_step (Terminate_step ssm) w =
     (if ssm < allocated w then Inr (ssm_terminate ssm w) else Inr w)"

fun exec :: "step list \<Rightarrow> world \<Rightarrow> error + world" where
  "exec [] w = Inr w"
| "exec (s # ss) w = (case apply_step s w of Inl e \<Rightarrow> Inl e | Inr w1 \<Rightarrow> exec ss w1)"


text \<open>The registry of a fresh process: no entry, no worker, no driver allocated.\<close>

definition no_session :: SessionHandle where
  "no_session = \<lparr>s_id = 0, s_remote = \<lparr>host = [], port = 0, sockAddr = None\<rparr>,
                 s_local = \<lparr>host = [], port = 0, sockAddr = None\<rparr>, s_tl = None,
                 getTags = 0, restrictionEnvironment = None\<rparr>"

definition world0 :: world where
  "world0 = \<lparr>sessions = [], nWorkers = 0,
             ssms = (\<lambda>a. \<lparr>session = no_session, state = Ended, cleanupHook = None, sync_mode = False\<rparr>),
             allocated = 0\<rparr>"


text \<open>The drivers on which an event list calls \<^verbatim>\<open>terminate()\<close>, in order.\<close>

fun terminate_calls :: "event list \<Rightarrow> ssm_ref list" where
  "terminate_calls [] = []"
| "terminate_calls (Terminate_call ssm # es) = ssm # terminate_calls es"
| "terminate_calls (e # es) = terminate_calls es"

text \<open>The identifiers for which an event list logs a skip, in order.\<close>

fun skips_logged :: "event list \<Rightarrow> SessionId list" where
  "skips_logged [] = []"
| "skips_logged (Log_skip i # es) = i # skips_logged es"
| "skips_logged (e # es) = skips_logged es"

text \<open>The references an event list appends to the snapshot \<^verbatim>\<open>connsToEnd\<close>, in order.\<close>

fun emplace_backs :: "event list \<Rightarrow> ssm_ref list" where
  "emplace_backs [] = []"
| "emplace_backs (ConnsToEnd_emplace_back ssm # es) = ssm # emplace_backs es"
| "emplace_backs (e # es) = emplace_backs es"

text \<open>Whether the tag set of the session of a driver intersects a tag filter.\<close>

definition tags_intersect :: "world \<Rightarrow> TagMask \<Rightarrow> ssm_ref \<Rightarrow> bool" where
  "tags_intersect w tags ssm = (getTags (session (ssms w ssm)) AND tags \<noteq> 0)"





subsection \<open>Example data\<close>

text \<open>
  Two accepted connections with resolved addresses, one tagged with bit 0 and one
  untagged, an endpoint without a resolved remote address, a service context with and
  without an executor, and the registry after both connections were started in
  thread-per-connection mode.
\<close>

definition client_addr :: HostAndPort where
  "client_addr = \<lparr>host = ''10.0.0.2'', port = 50000, sockAddr = Some ''10.0.0.2:50000''\<rparr>"

definition server_addr :: HostAndPort where
  "server_addr = \<lparr>host = ''10.0.0.1'', port = 27017, sockAddr = Some ''10.0.0.1:27017''\<rparr>"

definition unresolved_addr :: HostAndPort where
  "unresolved_addr = \<lparr>host = ''anonymous'', port = 0, sockAddr = None\<rparr>"

definition session_tagged :: SessionHandle where
  "session_tagged = \<lparr>s_id = 1, s_remote = client_addr, s_local = server_addr, s_tl = Some 7,
                     getTags = 1, restrictionEnvironment = None\<rparr>"

definition session_untagged :: SessionHandle where
  "session_untagged = \<lparr>s_id = 2, s_remote = client_addr, s_local = server_addr, s_tl = Some 7,
                       getTags = 0, restrictionEnvironment = None\<rparr>"

definition session_unresolved :: SessionHandle where
  "session_unresolved = \<lparr>s_id = 3, s_remote = unresolved_addr, s_local = server_addr, s_tl = Some 7,
                         getTags = 0, restrictionEnvironment = None\<rparr>"

definition threaded :: ServiceContext where
  "threaded = \<lparr>getServiceExecutor = None\<rparr>"

definition with_executor :: ServiceContext where
  "with_executor = \<lparr>getServiceExecutor = Some 3\<rparr>"

definition two_sessions :: world where
  "two_sessions =
     \<lparr>sessions = [1, 0], nWorkers = 2,
      ssms = (ssms world0)
        (0 := \<lparr>session = session_tagged\<lparr>restrictionEnvironment := Some (''10.0.0.2:50000'', ''10.0.0.1:27017'')\<rparr>,
               state = Created, cleanupHook = Some 0, sync_mode = True\<rparr>,
         1 := \<lparr>session = session_untagged\<lparr>restrictionEnvironment := Some (''10.0.0.2:50000'', ''10.0.0.1:27017'')\<rparr>,
               state = Created, cleanupHook = Some 1, sync_mode = True\<rparr>),
      allocated = 2\<rparr>"

definition two_cores :: ProcessInfo where
  "two_cores = \<lparr>getNumAvailableCores = Some 2, getNumCores = 8\<rparr>"




section \<open>Properties of the connection endpoint\<close>

subsection \<open>Move transfer\<close>

text \<open>
  The move constructor hands everything over: identifier, addresses and the transport-layer
  reference go to the constructed session, and the source is left detached.
\<close>

lemma Session_move_ctor_transfers:
  "Session_move_ctor husk other = (this, other') \<Longrightarrow>
     s_id this = s_id other \<and> s_remote this = s_remote other \<and> s_local this = s_local other \<and>
     s_tl this = s_tl other \<and> s_tl other' = None"
  by (auto simp: Session_move_ctor_def Let_def)

text \<open>
  Move assignment between two sessions copies identifier and addresses, but its second
  assignment to \<^verbatim>\<open>_tl\<close> clears the destination: the destination ends up detached and the
  source keeps its transport-layer reference.
\<close>

lemma Session_move_assign_fields:
  "Session_move_assign husk this other = (this', other') \<Longrightarrow>
     s_id this' = s_id other \<and> s_remote this' = s_remote other \<and> s_local this' = s_local other \<and>
     s_tl this' = None \<and> s_tl other' = s_tl other"
  by (auto simp: Session_move_assign_def Let_def)

text \<open>
  Claim C1. A move (construction and assignment alike) copies identifier and addresses,
  hands the transport-layer reference to the destination and clears it on the source.
  Move assignment does not: assigning the session with identifier 1, attached to the transport
  layer at address 7, to a detached session leaves the destination with no transport-layer
  reference and the source still attached to 7.
\<close>

theorem Session_move_assign_clears_destination:
  "Session_move_assign (\<lambda>a. a)
     \<lparr>s_id = 2, s_remote = \<lparr>host = ''b'', port = 2, sockAddr = None\<rparr>,
      s_local = \<lparr>host = ''b'', port = 2, sockAddr = None\<rparr>, s_tl = None\<rparr>
     \<lparr>s_id = 1, s_remote = \<lparr>host = ''a'', port = 1, sockAddr = None\<rparr>,
      s_local = \<lparr>host = ''c'', port = 3, sockAddr = None\<rparr>, s_tl = Some 7\<rparr>
   = (\<lparr>s_id = 1, s_remote = \<lparr>host = ''a'', port = 1, sockAddr = None\<rparr>,
      s_local = \<lparr>host = ''c'', port = 3, sockAddr = None\<rparr>, s_tl = None\<rparr>,
      \<lparr>s_id = 1, s_remote = \<lparr>host = ''a'', port = 1, sockAddr = None\<rparr>,
      s_local = \<lparr>host = ''c'', port = 3, sockAddr = None\<rparr>, s_tl = Some 7\<rparr>)"
  by (simp add: Session_move_assign_def Let_def)

subsection \<open>Notifications on destruction\<close>

lemma Session_dtor_detached: "s_tl s = None \<Longrightarrow> Session_dtor s log = log"
  by (simp add: Session_dtor_def)

lemma Session_dtor_attached: "s_tl s = Some t \<Longrightarrow> Session_dtor s log = log @ [TL_end t (s_id s)]"
  by (simp add: Session_dtor_def)

text \<open>
  After a move construction the husk is silent and the constructed session notifies in
  its place.
\<close>

lemma Session_move_ctor_dtor:
  "Session_move_ctor husk other = (this, other') \<Longrightarrow>
     Session_dtor other' log = log \<and> Session_dtor this log = Session_dtor other log"
  by (auto simp: Session_move_ctor_def Session_dtor_def Let_def split: option.splits)

text \<open>
  After a move assignment between two sessions it is the other way round, whatever the two
  sessions are. A session assigned to itself is left detached and notifies nobody.
\<close>

lemma Session_move_assign_self_dtor:
  "s_tl (Session_move_assign_self husk this) = None \<and>
   Session_dtor (Session_move_assign_self husk this) log = log"
  by (simp add: Session_move_assign_self_def Session_dtor_def Let_def)

lemma Session_move_assign_dtor:
  "Session_move_assign husk this other = (this', other') \<Longrightarrow>
     Session_dtor this' log = log \<and>
     Session_dtor other' log = (case s_tl other of None \<Rightarrow> log | Some t \<Rightarrow> log @ [TL_end t (s_id other)])"
  by (auto simp: Session_move_assign_def Session_dtor_def Let_def split: option.splits)

text \<open>
  Claim C2. Destroying a moved-from session triggers no ``connection ended'' notification;
  only the final destination of a chain of moves notifies, once. After a move assignment
  the code does the opposite: with the sessions of the previous theorem, destroying the
  moved-from source calls \<^verbatim>\<open>end\<close> on transport layer 7 for session 1, and destroying the
  destination notifies nobody.
\<close>

theorem Session_move_assign_husk_notifies:
  "(case Session_move_assign (\<lambda>a. a)
       \<lparr>s_id = 2, s_remote = \<lparr>host = ''b'', port = 2, sockAddr = None\<rparr>,
        s_local = \<lparr>host = ''b'', port = 2, sockAddr = None\<rparr>, s_tl = None\<rparr>
       \<lparr>s_id = 1, s_remote = \<lparr>host = ''a'', port = 1, sockAddr = None\<rparr>,
        s_local = \<lparr>host = ''c'', port = 3, sockAddr = None\<rparr>, s_tl = Some 7\<rparr>
    of (this', other') \<Rightarrow>
      Session_dtor other' [] = [TL_end 7 1] \<and> Session_dtor this' [] = [])"
  by (simp add: Session_move_assign_def Session_dtor_def Let_def)

subsection \<open>Identifiers\<close>

lemma Session_ctor_all_length: "length (Session_ctor_all c args) = length args"
  by (induction args arbitrary: c) (auto simp: Session_ctor_def Let_def)

text \<open>The session constructed at position \<open>i\<close> gets the start value of the counter plus \<open>i + 1\<close>.\<close>

lemma Session_ctor_all_nth:
  "i < length args \<Longrightarrow> s_id (Session_ctor_all c args ! i) = c + of_nat (Suc i)"
proof (induction args arbitrary: c i)
  case Nil
  then show ?case by simp
next
  case (Cons a args)
  obtain r l t where a: "a = (r, l, t)" by (cases a)
  show ?case
  proof (cases i)
    case 0
    then show ?thesis by (simp add: a Session_ctor_def addAndFetch_def Let_def)
  next
    case (Suc j)
    with Cons.prems have "j < length args" by simp
    from Cons.IH [OF this, of "c + 1"] show ?thesis
      by (simp add: a Suc Session_ctor_def addAndFetch_def Let_def add.assoc)
  qed
qed

lemma unat_SessionId: "n < 2 ^ 64 \<Longrightarrow> unat (of_nat n :: SessionId) = n"
  by (simp add: unat_of_nat)

lemma Session_ids_increasing:
  assumes "length args < 2 ^ 64"
  shows "sorted_wrt (<) (map s_id (Session_ctor_all 0 args))"
proof -
  have "\<forall>i j. i < j \<longrightarrow> j < length args \<longrightarrow>
          s_id (Session_ctor_all 0 args ! i) < s_id (Session_ctor_all 0 args ! j)"
  proof (intro allI impI)
    fix i j assume ij: "i < j" and j: "j < length args"
    have "unat (of_nat (Suc i) :: SessionId) = Suc i"
      using ij j assms by (intro unat_SessionId) simp
    moreover have "unat (of_nat (Suc j) :: SessionId) = Suc j"
      using j assms by (intro unat_SessionId) simp
    ultimately have "(of_nat (Suc i) :: SessionId) < of_nat (Suc j)"
      using ij by (simp add: word_less_nat_alt)
    then show "s_id (Session_ctor_all 0 args ! i) < s_id (Session_ctor_all 0 args ! j)"
      using ij j by (simp add: Session_ctor_all_nth)
  qed
  then show ?thesis
    by (simp add: sorted_wrt_iff_nth_less Session_ctor_all_length)
qed

lemma Session_ids_nonzero:
  assumes "length args < 2 ^ 64"
  shows "0 \<notin> set (map s_id (Session_ctor_all 0 args))"
proof
  assume "0 \<in> set (map s_id (Session_ctor_all 0 args))"
  then obtain i where i: "i < length args" and z: "s_id (Session_ctor_all 0 args ! i) = 0"
    by (auto simp: in_set_conv_nth Session_ctor_all_length)
  from i assms have "unat (of_nat (Suc i) :: SessionId) = Suc i"
    by (intro unat_SessionId) simp
  moreover from z i have "(of_nat (Suc i) :: SessionId) = 0"
    by (simp add: Session_ctor_all_nth)
  ultimately show False by simp
qed

text \<open>
  Claim C5, as stated: for every sequence of constructions the identifiers are pairwise
  distinct, never zero and increasing. The counter has 64 bits and \<^verbatim>\<open>addAndFetch\<close> wraps:
  the construction number \<open>2^64\<close> of a process is given the identifier 0.
\<close>

theorem Session_id_wraps_to_zero:
  "s_id (Session_ctor_all 0
      (replicate (2 ^ 64) (\<lparr>host = [], port = 0, sockAddr = None\<rparr>,
                           \<lparr>host = [], port = 0, sockAddr = None\<rparr>, None)) ! (2 ^ 64 - 1)) = 0"
proof -
  have "Suc (2 ^ 64 - 1) = (2 ^ 64 :: nat)" by simp
  then have "(of_nat (Suc (2 ^ 64 - 1)) :: SessionId) = of_nat (2 ^ 64)" by (rule arg_cong)
  then have "(of_nat (Suc (2 ^ 64 - 1)) :: SessionId) = 0" by simp
  then show ?thesis
    by (subst Session_ctor_all_nth) simp_all
qed

text \<open>
  Claim C5, amended: for every sequence of fewer than \<open>2^64\<close> constructions, starting from
  the counter's initial value 0, the identifiers are pairwise distinct, never zero and
  strictly increasing in construction order, and the construction at position \<open>i\<close> gets
  the result of one \<^verbatim>\<open>addAndFetch(1)\<close> on the counter value \<open>i\<close>.
\<close>

theorem Session_ids_unique_nonzero_increasing:
  "length args < 2 ^ 64 \<Longrightarrow>
     distinct (map s_id (Session_ctor_all 0 args)) \<and>
     0 \<notin> set (map s_id (Session_ctor_all 0 args)) \<and>
     sorted_wrt (<) (map s_id (Session_ctor_all 0 args)) \<and>
     (\<forall>i < length args. s_id (Session_ctor_all 0 args ! i) = addAndFetch (of_nat i) 1)"
  using Session_ids_increasing [of args] Session_ids_nonzero [of args]
    strict_sorted_iff [of "map s_id (Session_ctor_all 0 args)"]
  by (simp add: Session_ctor_all_nth addAndFetch_def)

theorem Session_ids_unique_nonzero_increasing_witness:
  "length [(\<lparr>host = ''a'', port = 1, sockAddr = None\<rparr>, \<lparr>host = ''b'', port = 2, sockAddr = None\<rparr>, Some 7),
           (\<lparr>host = ''c'', port = 3, sockAddr = None\<rparr>, \<lparr>host = ''b'', port = 2, sockAddr = None\<rparr>, Some (7::nat))]
     < (2::nat) ^ 64 \<and>
   map s_id (Session_ctor_all 0
          [(\<lparr>host = ''a'', port = 1, sockAddr = None\<rparr>, \<lparr>host = ''b'', port = 2, sockAddr = None\<rparr>, Some 7),
           (\<lparr>host = ''c'', port = 3, sockAddr = None\<rparr>, \<lparr>host = ''b'', port = 2, sockAddr = None\<rparr>, Some 7)])
     = [1, 2] \<and>
   distinct [1, 2 :: SessionId] \<and> 0 \<notin> set [1, 2 :: SessionId] \<and> sorted_wrt (<) [1, 2 :: SessionId]"
  using Session_ids_unique_nonzero_increasing
    [of "[(\<lparr>host = ''a'', port = 1, sockAddr = None\<rparr>, \<lparr>host = ''b'', port = 2, sockAddr = None\<rparr>, Some 7),
          (\<lparr>host = ''c'', port = 3, sockAddr = None\<rparr>, \<lparr>host = ''b'', port = 2, sockAddr = None\<rparr>, Some 7)]"]
  by (simp add: Session_ctor_def addAndFetch_def)

section \<open>Properties of the connection registry\<close>

subsection \<open>What startSession returns\<close>

lemmas example_defs = client_addr_def server_addr_def unresolved_addr_def session_tagged_def
  session_untagged_def session_unresolved_def threaded_def with_executor_def two_cores_def

lemma startSession_Inr:
  "sockAddr (s_remote sess) = Some ra \<Longrightarrow> sockAddr (s_local sess) = Some la \<Longrightarrow>
   startSession svcCtx sess w =
     Inr ([RestrictionEnvironment_set, Create_call (allocated w), Lock,
           Sessions_emplace (allocated w), Unlock, SetCleanupHook_call (allocated w)] @
          [if getServiceExecutor svcCtx = None then LaunchServiceWorkerThread (allocated w)
           else ScheduleNext_call (allocated w)],
          \<lparr>sessions = allocated w # sessions w, nWorkers = nWorkers w,
           ssms = (ssms w)(allocated w :=
                    \<lparr>session = sess\<lparr>restrictionEnvironment := Some (ra, la)\<rparr>, state = Created,
                     cleanupHook = Some (allocated w),
                     sync_mode = (getServiceExecutor svcCtx = None)\<rparr>),
           allocated = Suc (allocated w)\<rparr>)"
  by (simp add: startSession_def ServiceStateMachine_create_def setCleanupHook_def Let_def)

lemma startSession_Inl:
  "sockAddr (s_remote sess) = None \<or> sockAddr (s_local sess) = None \<Longrightarrow>
   startSession svcCtx sess w = Inl InvariantFailure"
  by (auto simp add: startSession_def Let_def)

lemma startSession_InrD:
  assumes "startSession svcCtx sess w = Inr (es, w1)"
  shows "sessions w1 = allocated w # sessions w" and "nWorkers w1 = nWorkers w"
    and "allocated w1 = Suc (allocated w)"
    and "state (ssms w1 (allocated w)) = Created"
    and "cleanupHook (ssms w1 (allocated w)) = Some (allocated w)"
    and "\<And>a. a \<noteq> allocated w \<Longrightarrow> ssms w1 a = ssms w a"
    and "butlast es = [RestrictionEnvironment_set, Create_call (allocated w), Lock,
           Sessions_emplace (allocated w), Unlock, SetCleanupHook_call (allocated w)]"
    and "last es = (if getServiceExecutor svcCtx = None then LaunchServiceWorkerThread (allocated w)
           else ScheduleNext_call (allocated w))"
proof -
  have "\<not> (sockAddr (s_remote sess) = None \<or> sockAddr (s_local sess) = None)"
  proof
    assume "sockAddr (s_remote sess) = None \<or> sockAddr (s_local sess) = None"
    then have "startSession svcCtx sess w = Inl InvariantFailure" by (rule startSession_Inl)
    with assms show False by simp
  qed
  then obtain ra la where "sockAddr (s_remote sess) = Some ra" "sockAddr (s_local sess) = Some la"
    by auto
  note eq = startSession_Inr [OF this, of svcCtx w]
  from assms eq show "sessions w1 = allocated w # sessions w" by auto
  from assms eq show "nWorkers w1 = nWorkers w" by auto
  from assms eq show "allocated w1 = Suc (allocated w)" by auto
  from assms eq show "state (ssms w1 (allocated w)) = Created" by auto
  from assms eq show "cleanupHook (ssms w1 (allocated w)) = Some (allocated w)" by auto
  from assms eq show "\<And>a. a \<noteq> allocated w \<Longrightarrow> ssms w1 a = ssms w a" by auto
  from assms eq show "butlast es = [RestrictionEnvironment_set, Create_call (allocated w), Lock,
           Sessions_emplace (allocated w), Unlock, SetCleanupHook_call (allocated w)]" by auto
  from assms eq show "last es = (if getServiceExecutor svcCtx = None then LaunchServiceWorkerThread (allocated w)
           else ScheduleNext_call (allocated w))" by auto
qed

text \<open>
  Claim C8. \<^verbatim>\<open>startSession\<close> fails, by an invariant violation that ends the process, if and
  only if the endpoint lacks a resolved remote or local socket address; with both
  addresses resolved it never fails. In particular the \<^verbatim>\<open>dassert\<close> of the executor branch
  never fires.
\<close>

theorem startSession_fails_iff_address_missing:
  "isl (startSession svcCtx sess w) =
     (sockAddr (s_remote sess) = None \<or> sockAddr (s_local sess) = None) \<and>
   (startSession svcCtx sess w = Inl InvariantFailure) =
     (sockAddr (s_remote sess) = None \<or> sockAddr (s_local sess) = None) \<and>
   startSession svcCtx sess w \<noteq> Inl DassertFailure"
proof (cases "sockAddr (s_remote sess) = None \<or> sockAddr (s_local sess) = None")
  case True
  then show ?thesis by (simp add: startSession_Inl)
next
  case False
  then obtain ra la where "sockAddr (s_remote sess) = Some ra" "sockAddr (s_local sess) = Some la"
    by auto
  then show ?thesis by (simp add: startSession_Inr)
qed

theorem startSession_fails_iff_address_missing_witness:
  "startSession threaded session_unresolved world0 = Inl InvariantFailure \<and>
   sockAddr (s_remote session_unresolved) = None \<and>
   \<not> isl (startSession threaded session_tagged world0) \<and>
   \<not> isl (startSession with_executor session_tagged world0) \<and>
   sockAddr (s_remote session_tagged) = Some ''10.0.0.2:50000'' \<and>
   sockAddr (s_local session_tagged) = Some ''10.0.0.1:27017''"
  using startSession_fails_iff_address_missing [of threaded session_unresolved world0]
    startSession_fails_iff_address_missing [of threaded session_tagged world0]
    startSession_fails_iff_address_missing [of with_executor session_tagged world0]
  by (simp add: example_defs)

subsection \<open>endAllSessions\<close>

lemma tags_intersect_fun:
  "tags_intersect w tags = (\<lambda>ssm. getTags (session (ssms w ssm)) AND tags \<noteq> 0)"
  by (simp add: fun_eq_iff tags_intersect_def)

lemma terminate_calls_append: "terminate_calls (xs @ ys) = terminate_calls xs @ terminate_calls ys"
  by (induction xs rule: terminate_calls.induct) simp_all

lemma skips_logged_append: "skips_logged (xs @ ys) = skips_logged xs @ skips_logged ys"
  by (induction xs rule: skips_logged.induct) simp_all

lemma emplace_backs_append: "emplace_backs (xs @ ys) = emplace_backs xs @ emplace_backs ys"
  by (induction xs rule: emplace_backs.induct) simp_all

text \<open>The first loop: its snapshot and its events.\<close>

lemma collect_connsToEnd_snd:
  "snd (collect_connsToEnd heap tags xs acc) =
     acc @ filter (\<lambda>ssm. \<not> (getTags (session (heap ssm)) AND tags \<noteq> 0)) xs"
  by (induction xs arbitrary: acc) (simp_all add: split_beta)

lemma collect_connsToEnd_terminate_calls:
  "terminate_calls (fst (collect_connsToEnd heap tags xs acc)) = []"
  by (induction xs arbitrary: acc) (simp_all add: split_beta)

lemma collect_connsToEnd_skips_logged:
  "skips_logged (fst (collect_connsToEnd heap tags xs acc)) =
     map (\<lambda>ssm. s_id (session (heap ssm)))
       (filter (\<lambda>ssm. getTags (session (heap ssm)) AND tags \<noteq> 0) xs)"
  by (induction xs arbitrary: acc) (simp_all add: split_beta)

lemma collect_connsToEnd_emplace_backs:
  "emplace_backs (fst (collect_connsToEnd heap tags xs acc)) =
     filter (\<lambda>ssm. \<not> (getTags (session (heap ssm)) AND tags \<noteq> 0)) xs"
  by (induction xs arbitrary: acc) (simp_all add: split_beta)

lemma collect_connsToEnd_under_lock:
  "under_lock True (fst (collect_connsToEnd heap tags xs acc) @ es) =
     fst (collect_connsToEnd heap tags xs acc) @ under_lock True es"
  by (induction xs arbitrary: acc) (simp_all add: split_beta)

lemma collect_connsToEnd_outside_lock:
  "outside_lock True (fst (collect_connsToEnd heap tags xs acc) @ es) = outside_lock True es"
  by (induction xs arbitrary: acc) (simp_all add: split_beta)

lemma collect_connsToEnd_no_driver_call:
  "e \<in> set (fst (collect_connsToEnd heap tags xs acc)) \<Longrightarrow> \<not> is_driver_call e"
  by (induction xs arbitrary: acc) (auto simp: split_beta split: if_splits)

text \<open>The second loop: one call of \<^verbatim>\<open>terminate()\<close> per entry of the snapshot.\<close>

lemma terminate_connsToEnd_fst:
  "fst (terminate_connsToEnd terminate cs w) = map Terminate_call cs"
  by (induction cs arbitrary: w) (simp_all add: split_beta Let_def)

lemma terminate_connsToEnd_frame:
  assumes "\<And>a b v. a \<noteq> b \<Longrightarrow> ssms (terminate a v) b = ssms v b"
  shows "x \<notin> set cs \<Longrightarrow> ssms (snd (terminate_connsToEnd terminate cs w)) x = ssms w x"
  by (induction cs arbitrary: w) (simp_all add: split_beta Let_def assms)

lemma terminate_calls_map: "terminate_calls (map Terminate_call cs) = cs"
  by (induction cs) simp_all

lemma skips_logged_map: "skips_logged (map Terminate_call cs) = []"
  by (induction cs) simp_all

lemma emplace_backs_map: "emplace_backs (map Terminate_call cs) = []"
  by (induction cs) simp_all

lemma under_lock_map: "under_lock False (map Terminate_call cs) = []"
  by (induction cs) simp_all

lemma outside_lock_map: "outside_lock False (map Terminate_call cs) = map Terminate_call cs"
  by (induction cs) simp_all

lemma endAllSessions_events:
  "fst (endAllSessions terminate tags w) =
     [Lock] @ fst (collect_connsToEnd (ssms w) tags (sessions w) []) @ [Unlock] @
     map Terminate_call (filter (\<lambda>ssm. \<not> tags_intersect w tags ssm) (sessions w))"
  by (simp add: endAllSessions_def split_beta terminate_connsToEnd_fst collect_connsToEnd_snd
      tags_intersect_def)

lemma endAllSessions_world:
  "snd (endAllSessions terminate tags w) =
     snd (terminate_connsToEnd terminate
            (filter (\<lambda>ssm. \<not> tags_intersect w tags ssm) (sessions w)) w)"
  by (simp add: endAllSessions_def split_beta collect_connsToEnd_snd tags_intersect_def)

lemma ssm_terminate_eq: "ssm_terminate = ssm_end"
  by (simp add: fun_eq_iff ssm_terminate_def)

lemma ssm_end_frame: "a \<noteq> b \<Longrightarrow> ssms (ssm_end a w) b = ssms w b"
  by (simp add: ssm_end_def cleanupHook_body_def Let_def split: option.splits)

lemma endAllSessions_two_sessions:
  "fst (endAllSessions terminate 1 two_sessions) =
     [Lock, Session_call 1, ConnsToEnd_emplace_back 1, Session_call 0, Session_call 0, Log_skip 1,
      Unlock, Terminate_call 1]"
  by (simp add: endAllSessions_events tags_intersect_def two_sessions_def session_tagged_def
      session_untagged_def)

lemma terminate_connsToEnd_snd:
  "snd (terminate_connsToEnd terminate cs w) = fold terminate cs w"
  by (induction cs arbitrary: w) (simp_all add: split_beta Let_def)

lemma endAllSessions_state:
  "snd (endAllSessions terminate tags w) =
     fold terminate (filter (\<lambda>ssm. \<not> tags_intersect w tags ssm) (sessions w)) w"
  by (simp add: endAllSessions_world terminate_connsToEnd_snd)

lemma ssm_terminate_two_sessions:
  "ssm_terminate 1 two_sessions =
     two_sessions\<lparr>sessions := [0],
       ssms := (ssms two_sessions)(1 := (ssms two_sessions 1)\<lparr>state := Ended\<rparr>)\<rparr>"
  by (simp add: ssm_terminate_def ssm_end_def cleanupHook_body_def two_sessions_def)

text \<open>
  Claim C3. \<^verbatim>\<open>endAllSessions(tagFilter)\<close> calls \<^verbatim>\<open>terminate()\<close> on exactly the registered
  drivers whose session's tag set does not intersect the filter (each registry entry once,
  in registry order), and the state it leaves is the one these calls of \<^verbatim>\<open>terminate()\<close>
  produce, applied in that order to the state it found; every driver whose tags intersect
  the filter is skipped and logged, and, \<^verbatim>\<open>terminate()\<close> on one driver leaving the other
  drivers alone, it is the same after the call as before.
\<close>

theorem endAllSessions_terminates_exactly_unfiltered:
  "terminate_calls (fst (endAllSessions terminate tags w)) =
     filter (\<lambda>ssm. \<not> tags_intersect w tags ssm) (sessions w) \<and>
   snd (endAllSessions terminate tags w) =
     fold terminate (filter (\<lambda>ssm. \<not> tags_intersect w tags ssm) (sessions w)) w \<and>
   skips_logged (fst (endAllSessions terminate tags w)) =
     map (\<lambda>ssm. s_id (session (ssms w ssm))) (filter (tags_intersect w tags) (sessions w)) \<and>
   ((\<forall>a b v. a \<noteq> b \<longrightarrow> ssms (terminate a v) b = ssms v b) \<longrightarrow>
    (\<forall>ssm. tags_intersect w tags ssm \<longrightarrow>
       ssms (snd (endAllSessions terminate tags w)) ssm = ssms w ssm))"
proof (intro conjI impI allI)
  show "terminate_calls (fst (endAllSessions terminate tags w)) =
          filter (\<lambda>ssm. \<not> tags_intersect w tags ssm) (sessions w)"
    by (simp add: endAllSessions_events terminate_calls_append terminate_calls_map
        collect_connsToEnd_terminate_calls)
  show "snd (endAllSessions terminate tags w) =
     fold terminate (filter (\<lambda>ssm. \<not> tags_intersect w tags ssm) (sessions w)) w"
    by (rule endAllSessions_state)
  show "skips_logged (fst (endAllSessions terminate tags w)) =
          map (\<lambda>ssm. s_id (session (ssms w ssm))) (filter (tags_intersect w tags) (sessions w))"
    by (simp add: endAllSessions_events skips_logged_append skips_logged_map
        collect_connsToEnd_skips_logged tags_intersect_fun)
next
  fix ssm
  assume frame: "\<forall>a b v. a \<noteq> b \<longrightarrow> ssms (terminate a v) b = ssms v b"
    and skip: "tags_intersect w tags ssm"
  from skip have "ssm \<notin> set (filter (\<lambda>ssm. \<not> tags_intersect w tags ssm) (sessions w))"
    by simp
  with frame show "ssms (snd (endAllSessions terminate tags w)) ssm = ssms w ssm"
    by (simp add: endAllSessions_world terminate_connsToEnd_frame)
qed

theorem endAllSessions_terminates_exactly_unfiltered_witness:
  "tags_intersect two_sessions 1 0 \<and> \<not> tags_intersect two_sessions 1 1 \<and>
   terminate_calls (fst (endAllSessions ssm_terminate 1 two_sessions)) = [1] \<and>
   skips_logged (fst (endAllSessions ssm_terminate 1 two_sessions)) = [1] \<and>
   snd (endAllSessions ssm_terminate 1 two_sessions) = ssm_terminate 1 two_sessions \<and>
   state (ssms two_sessions 1) = Created \<and>
   state (ssms (snd (endAllSessions ssm_terminate 1 two_sessions)) 1) = Ended \<and>
   sessions (snd (endAllSessions ssm_terminate 1 two_sessions)) = [0] \<and>
   ssms (snd (endAllSessions ssm_terminate 1 two_sessions)) 0 = ssms two_sessions 0"
proof -
  note t = endAllSessions_terminates_exactly_unfiltered [of ssm_terminate 1 two_sessions]
  have frame: "\<forall>a b v. a \<noteq> b \<longrightarrow> ssms (ssm_terminate a v) b = ssms v b"
    by (simp add: ssm_terminate_eq ssm_end_frame)
  have skip: "tags_intersect two_sessions 1 0"
    by (simp add: tags_intersect_def two_sessions_def session_tagged_def)
  have sel: "\<not> tags_intersect two_sessions 1 1"
    by (simp add: tags_intersect_def two_sessions_def session_untagged_def)
  have flt: "filter (\<lambda>ssm. \<not> tags_intersect two_sessions 1 ssm) (sessions two_sessions) = [1]"
    using skip sel by (simp add: two_sessions_def)
  from t frame skip have "ssms (snd (endAllSessions ssm_terminate 1 two_sessions)) 0 = ssms two_sessions 0"
    by blast
  moreover from t have "terminate_calls (fst (endAllSessions ssm_terminate 1 two_sessions)) = [1]"
    by (simp add: flt)
  moreover from t have "skips_logged (fst (endAllSessions ssm_terminate 1 two_sessions)) = [1]"
    using skip sel by (simp add: two_sessions_def session_tagged_def)
  moreover from t have e: "snd (endAllSessions ssm_terminate 1 two_sessions) = ssm_terminate 1 two_sessions"
    by (simp add: flt)
  moreover have "state (ssms two_sessions 1) = Created"
    by (simp add: two_sessions_def)
  moreover have "state (ssms (snd (endAllSessions ssm_terminate 1 two_sessions)) 1) = Ended"
    unfolding e ssm_terminate_two_sessions by simp
  moreover have "sessions (snd (endAllSessions ssm_terminate 1 two_sessions)) = [0]"
    unfolding e ssm_terminate_two_sessions by simp
  ultimately show ?thesis using skip sel by blast
qed

lemma startSession_under_lock:
  assumes "startSession svcCtx sess w = Inr (es, w1)"
  shows "under_lock False es = [Sessions_emplace (allocated w)]"
proof -
  note d = startSession_InrD [OF assms]
  from d(7) have "es \<noteq> []" by auto
  then have "es = butlast es @ [last es]" by simp
  then have "es = [RestrictionEnvironment_set, Create_call (allocated w), Lock,
           Sessions_emplace (allocated w), Unlock, SetCleanupHook_call (allocated w)] @
           [if getServiceExecutor svcCtx = None then LaunchServiceWorkerThread (allocated w)
           else ScheduleNext_call (allocated w)]"
    using d(7,8) by simp
  then show ?thesis by simp
qed

text \<open>
  Claim C7. Every execution of \<^verbatim>\<open>endAllSessions\<close> is one locked block followed by the calls
  of \<^verbatim>\<open>terminate()\<close>. The snapshot is built entirely inside the locked block: every append
  to \<^verbatim>\<open>connsToEnd\<close> happens there, and the appended references are exactly the ones
  terminated afterwards. All calls of \<^verbatim>\<open>terminate()\<close> come after the release of the lock. No
  call into a driver is made while the lock is held: inside the locked block the code only
  reads the session pointer of each driver, logs and appends. The same holds for the
  locked block of \<^verbatim>\<open>startSession\<close>, which only inserts the new entry.
\<close>

theorem endAllSessions_lock_discipline:
  "fst (endAllSessions terminate tags w) =
     Lock # under_lock False (fst (endAllSessions terminate tags w)) @
     Unlock # outside_lock False (fst (endAllSessions terminate tags w)) \<and>
   emplace_backs (under_lock False (fst (endAllSessions terminate tags w))) =
     terminate_calls (fst (endAllSessions terminate tags w)) \<and>
   emplace_backs (outside_lock False (fst (endAllSessions terminate tags w))) = [] \<and>
   outside_lock False (fst (endAllSessions terminate tags w)) =
     map Terminate_call (terminate_calls (fst (endAllSessions terminate tags w))) \<and>
   terminate_calls (under_lock False (fst (endAllSessions terminate tags w))) = [] \<and>
   (\<forall>e \<in> set (under_lock False (fst (endAllSessions terminate tags w))). \<not> is_driver_call e) \<and>
   (\<forall>svcCtx sess es w1. startSession svcCtx sess w = Inr (es, w1) \<longrightarrow>
      (\<forall>e \<in> set (under_lock False es). \<not> is_driver_call e))"
proof -
  let ?body = "fst (collect_connsToEnd (ssms w) tags (sessions w) [])"
  let ?cs = "filter (\<lambda>ssm. \<not> tags_intersect w tags ssm) (sessions w)"
  have es: "fst (endAllSessions terminate tags w) = Lock # ?body @ Unlock # map Terminate_call ?cs"
    by (simp add: endAllSessions_events)
  have ul: "under_lock False (fst (endAllSessions terminate tags w)) = ?body"
    using collect_connsToEnd_under_lock [of "ssms w" tags "sessions w" "[]" "Unlock # map Terminate_call ?cs"]
    by (simp add: es under_lock_map)
  have ol: "outside_lock False (fst (endAllSessions terminate tags w)) = map Terminate_call ?cs"
    using collect_connsToEnd_outside_lock [of "ssms w" tags "sessions w" "[]" "Unlock # map Terminate_call ?cs"]
    by (simp add: es outside_lock_map)
  have tc: "terminate_calls (fst (endAllSessions terminate tags w)) = ?cs"
    by (simp add: es terminate_calls_append terminate_calls_map collect_connsToEnd_terminate_calls)
  have body: "\<forall>e \<in> set ?body. \<not> is_driver_call e"
    by (rule ballI) (rule collect_connsToEnd_no_driver_call)
  have start: "\<forall>svcCtx sess es w1. startSession svcCtx sess w = Inr (es, w1) \<longrightarrow>
      (\<forall>e \<in> set (under_lock False es). \<not> is_driver_call e)"
    by (auto simp: startSession_under_lock)
  show ?thesis
    unfolding ul ol tc
    using body start
    by (simp add: es emplace_backs_map collect_connsToEnd_emplace_backs
        collect_connsToEnd_terminate_calls tags_intersect_def)
qed

theorem endAllSessions_lock_discipline_witness:
  "under_lock False (fst (endAllSessions ssm_terminate 1 two_sessions)) =
     [Session_call 1, ConnsToEnd_emplace_back 1, Session_call 0, Session_call 0, Log_skip 1] \<and>
   outside_lock False (fst (endAllSessions ssm_terminate 1 two_sessions)) = [Terminate_call 1] \<and>
   Session_call 0 \<in> set (under_lock False (fst (endAllSessions ssm_terminate 1 two_sessions))) \<and>
   \<not> is_driver_call (Session_call 0) \<and>
   is_driver_call (Terminate_call 1) \<and>
   (\<exists>es w1. startSession threaded session_tagged two_sessions = Inr (es, w1) \<and>
      under_lock False es = [Sessions_emplace 2] \<and> \<not> is_driver_call (Sessions_emplace 2))"
proof -
  note t = endAllSessions_lock_discipline [of ssm_terminate 1 two_sessions]
  obtain es w1 where s: "startSession threaded session_tagged two_sessions = Inr (es, w1)"
    using startSession_Inr [of session_tagged _ _ threaded two_sessions]
    by (simp add: example_defs)
  have u: "under_lock False es = [Sessions_emplace 2]"
    using startSession_under_lock [OF s] by (simp add: two_sessions_def)
  from t s have "\<forall>e \<in> set (under_lock False es). \<not> is_driver_call e" by blast
  with u have "\<not> is_driver_call (Sessions_emplace 2)" by simp
  with s u have "\<exists>es w1. startSession threaded session_tagged two_sessions = Inr (es, w1) \<and>
      under_lock False es = [Sessions_emplace 2] \<and> \<not> is_driver_call (Sessions_emplace 2)"
    by blast
  moreover from t have "\<not> is_driver_call (Session_call 0)"
    by (simp add: endAllSessions_two_sessions)
  ultimately show ?thesis
    by (simp add: endAllSessions_two_sessions)
qed

subsection \<open>The registry and the live drivers\<close>

lemma startSession_create_Inr:
  "sockAddr (s_remote sess) = Some ra \<Longrightarrow> sockAddr (s_local sess) = Some la \<Longrightarrow>
   startSession_create svcCtx sess w =
     Inr (allocated w,
          w\<lparr>ssms := (ssms w)(allocated w :=
                    \<lparr>session = sess\<lparr>restrictionEnvironment := Some (ra, la)\<rparr>, state = Created,
                     cleanupHook = None, sync_mode = (getServiceExecutor svcCtx = None)\<rparr>),
            allocated := Suc (allocated w)\<rparr>)"
  by (simp add: startSession_create_def ServiceStateMachine_create_def Let_def)

lemma startSession_create_Inl:
  "sockAddr (s_remote sess) = None \<or> sockAddr (s_local sess) = None \<Longrightarrow>
   startSession_create svcCtx sess w = Inl InvariantFailure"
  by (auto simp add: startSession_create_def Let_def)

lemma startSession_create_InrD:
  assumes "startSession_create svcCtx sess w = Inr (ssm, w1)"
  shows "ssm = allocated w" and "sessions w1 = sessions w" and "nWorkers w1 = nWorkers w"
    and "allocated w1 = Suc (allocated w)"
    and "state (ssms w1 (allocated w)) = Created"
    and "cleanupHook (ssms w1 (allocated w)) = None"
    and "\<And>a. a \<noteq> allocated w \<Longrightarrow> ssms w1 a = ssms w a"
proof -
  have "\<not> (sockAddr (s_remote sess) = None \<or> sockAddr (s_local sess) = None)"
  proof
    assume "sockAddr (s_remote sess) = None \<or> sockAddr (s_local sess) = None"
    then have "startSession_create svcCtx sess w = Inl InvariantFailure"
      by (rule startSession_create_Inl)
    with assms show False by simp
  qed
  then obtain ra la where "sockAddr (s_remote sess) = Some ra" "sockAddr (s_local sess) = Some la"
    by auto
  note eq = startSession_create_Inr [OF this, of svcCtx w]
  from assms eq show "ssm = allocated w" by auto
  from assms eq show "sessions w1 = sessions w" by auto
  from assms eq show "nWorkers w1 = nWorkers w" by auto
  from assms eq show "allocated w1 = Suc (allocated w)" by auto
  from assms eq show "state (ssms w1 (allocated w)) = Created" by auto
  from assms eq show "cleanupHook (ssms w1 (allocated w)) = None" by auto
  from assms eq show "\<And>a. a \<noteq> allocated w \<Longrightarrow> ssms w1 a = ssms w a" by auto
qed

text \<open>\<^verbatim>\<open>startSession\<close> is its three phases, one after the other.\<close>

lemma startSession_phases:
  assumes "startSession svcCtx sess w = Inr (es, w3)"
  shows "\<exists>w1. startSession_create svcCtx sess w = Inr (allocated w, w1) \<and>
           w3 = setCleanupHook (allocated w) (allocated w) (startSession_emplace (allocated w) w1)"
proof -
  have "\<not> (sockAddr (s_remote sess) = None \<or> sockAddr (s_local sess) = None)"
  proof
    assume "sockAddr (s_remote sess) = None \<or> sockAddr (s_local sess) = None"
    then have "startSession svcCtx sess w = Inl InvariantFailure" by (rule startSession_Inl)
    with assms show False by simp
  qed
  then obtain ra la where a: "sockAddr (s_remote sess) = Some ra" "sockAddr (s_local sess) = Some la"
    by auto
  from assms show ?thesis
    unfolding startSession_Inr [OF a] startSession_create_Inr [OF a]
    by (auto simp: setCleanupHook_def startSession_emplace_def)
qed

lemma startSession_as_steps:
  assumes "startSession svcCtx sess w = Inr (es, w3)" and "allocated w \<notin> set (sessions w)"
  shows "exec [Create_step svcCtx sess, Emplace_step (allocated w), SetCleanupHook_step (allocated w)] w
           = Inr w3"
proof -
  from startSession_phases [OF assms(1)] obtain w1 where
    c: "startSession_create svcCtx sess w = Inr (allocated w, w1)" and
    w3: "w3 = setCleanupHook (allocated w) (allocated w) (startSession_emplace (allocated w) w1)"
    by blast
  note d = startSession_create_InrD [OF c]
  from assms(2) d show ?thesis
    by (simp add: c w3 startSession_emplace_def)
qed





lemma allocated_ssm_end: "allocated (ssm_end ssm w) = allocated w"
  by (simp add: ssm_end_def cleanupHook_body_def Let_def split: option.splits)


















text \<open>
  The state changes of \<^verbatim>\<open>endAllSessions\<close> are the \<^verbatim>\<open>terminate()\<close> steps for its snapshot,
  one after the other; other steps may come between them in an execution.
\<close>

lemma exec_terminate_steps:
  "\<forall>ssm \<in> set cs. ssm < allocated w \<Longrightarrow>
     exec (map Terminate_step cs) w = Inr (fold ssm_terminate cs w)"
  by (induction cs arbitrary: w) (simp_all add: ssm_terminate_eq allocated_ssm_end)

lemma endAllSessions_as_steps:
  assumes "\<forall>ssm \<in> set (sessions w). ssm < allocated w"
  shows "exec (map Terminate_step (filter (\<lambda>ssm. \<not> tags_intersect w tags ssm) (sessions w))) w =
           Inr (snd (endAllSessions ssm_terminate tags w))"
  using assms by (simp add: endAllSessions_state exec_terminate_steps)












subsection \<open>Registration comes before execution\<close>





subsection \<open>The two execution strategies\<close>








lemma filter_starts_execution_setup:
  "filter starts_execution
     [RestrictionEnvironment_set, Create_call a, Lock, Sessions_emplace a, Unlock,
      SetCleanupHook_call a] = []"
  by simp

text \<open>The number of cores the worker compares with, and the example worker.\<close>

lemma numCores_available:
  "getNumAvailableCores p = Some c \<Longrightarrow> c < 2 ^ 32 \<Longrightarrow> numCores p = c"
  by (simp add: numCores_def static_cast_unsigned_def)

lemma numCores_fallback:
  "getNumAvailableCores p = None \<Longrightarrow> getNumCores p < 2 ^ 32 \<Longrightarrow> numCores p = getNumCores p"
  by (simp add: numCores_def static_cast_unsigned_def)












end
